theory Spec2Isabelle
  imports Complex_Main "HOL-Library.Sublist"
begin

section \<open>Data model (app/models/order.py, app/models/user.py, app/models/base.py)\<close>

text \<open>
  The two enumerations of the models. Both mix in \<open>str\<close>, so a member compares equal to
  its value (\<open>user.role == 'customer'\<close> is the comparison of members).
\<close>

datatype OrderStatus = PENDING | CONFIRMED | PROCESSING | SHIPPED | DELIVERED | CANCELLED | REFUNDED

datatype UserRole = ADMIN | VENDOR | CUSTOMER

text \<open>
  Exceptions are values. An exception text that is built from data (an f-string, the
  message of a failed Enum lookup) is kept structured; every fixed text is the literal
  of the source.
\<close>

datatype detail =
    Msg string
  | Invalid_status_transition OrderStatus OrderStatus
  | Not_a_valid_OrderStatus string
  | Failed_to_cancel_order

datatype exn =
    HTTPException nat detail
  | ValueError detail
  | PermissionError detail
  | NameError string
  | KeyError string
  | TypeError
  | InvalidRequestError
  | DatabaseError

text \<open>
  Decimal amounts are rationals. The three amount columns are Numeric(10, 2): what the
  store gives back for an amount written to them is the amount at the column's scale of
  two places, and the functions that read an order back after a commit take that
  rounding as their parameter \<open>numeric\<close>. Timestamps are stored as the code's
  background job reads them: naive datetimes holding the IST wall clock
  (background\_jobs.py, lines 66-68 and 88), here in microseconds.

  An order's key and a user's key are integer columns. \<open>Order.user_id\<close> is a
  String(36) column: it holds the decimal text of the owner's key, and \<open>user_id\<close> is
  the number that text denotes. The SQL comparison of the column with a user's key and
  the comparison of \<open>str(order.user_id)\<close> with \<open>str(user.id)\<close> compare these numbers.
  Python's own \<open>order.user_id != user.id\<close> compares a str with an int (see
  \<open>pyval\<close> below).

  The attributes \<open>customer_name\<close> and \<open>shipping_address\<close> are optional as Python
  attributes (the update schema can assign None to them); their columns are
  \<open>nullable=False\<close>, which the commit enforces.
\<close>

record OrderItem =
  item_order_id :: nat
  product_name :: string
  product_sku :: "string option"
  quantity :: int
  unit_price :: rat
  total_price :: rat
  product_description :: "string option"

record Order =
  oid :: nat
  user_id :: nat
  customer_name :: "string option"
  customer_email :: string
  customer_phone :: "string option"
  shipping_address :: "string option"
  status :: OrderStatus
  total_amount :: rat
  order_notes :: "string option"
  tracking_number :: "string option"
  items :: "OrderItem list"
  created_at :: int
  updated_at :: int

record User =
  uid :: nat
  role :: UserRole

text \<open>
  The two kinds of Python value an identifier is held in: the str with the decimal text
  of a number (what the attribute \<open>order.user_id\<close> is when the row is loaded) and the
  int (what \<open>user.id\<close> is). A str and an int are never equal.
\<close>

datatype pyval = Str_of nat | Int_of nat

definition attr_user_id :: "Order \<Rightarrow> pyval" where
  "attr_user_id ord = Str_of (user_id ord)"

definition attr_id :: "User \<Rightarrow> pyval" where
  "attr_id u = Int_of (uid u)"

text \<open>The orders table: its rows. \<open>oid\<close> is the primary key.\<close>

type_synonym store = "Order list"

definition calculate_total :: "Order \<Rightarrow> rat" where
  "calculate_total ord = sum_list (map total_price (items ord))"

definition calculate_total_price :: "OrderItem \<Rightarrow> rat" where
  "calculate_total_price it = unit_price it * of_int (quantity it)"

section \<open>Request schemas (app/schemas/order.py)\<close>

record OrderItemCreate =
  ic_product_name :: string
  ic_product_sku :: "string option"
  ic_quantity :: int
  ic_unit_price :: rat
  ic_product_description :: "string option"

record OrderCreate =
  oc_customer_name :: string
  oc_customer_email :: string
  oc_customer_phone :: "string option"
  oc_shipping_address :: string
  oc_notes :: "string option"
  oc_items :: "OrderItemCreate list"

text \<open>
  OrderUpdate: four optional fields. The outer option is "set in the request or not"
  (what \<open>dict(exclude_unset=True)\<close> looks at), the inner one the value, which may be null.
\<close>

record OrderUpdate =
  upd_customer_name :: "string option option"
  upd_customer_phone :: "string option option"
  upd_shipping_address :: "string option option"
  upd_notes :: "string option option"

datatype field = F_customer_name | F_customer_phone | F_shipping_address | F_notes

definition dict_exclude_unset :: "OrderUpdate \<Rightarrow> (field \<times> string option) list" where
  "dict_exclude_unset d =
     (case upd_customer_name d of None \<Rightarrow> [] | Some v \<Rightarrow> [(F_customer_name, v)]) @
     (case upd_customer_phone d of None \<Rightarrow> [] | Some v \<Rightarrow> [(F_customer_phone, v)]) @
     (case upd_shipping_address d of None \<Rightarrow> [] | Some v \<Rightarrow> [(F_shipping_address, v)]) @
     (case upd_notes d of None \<Rightarrow> [] | Some v \<Rightarrow> [(F_notes, v)])"

fun setattr :: "Order \<Rightarrow> field \<times> string option \<Rightarrow> Order" where
  "setattr ord (F_customer_name, v) = ord\<lparr>customer_name := v\<rparr>"
| "setattr ord (F_customer_phone, v) = ord\<lparr>customer_phone := v\<rparr>"
| "setattr ord (F_shipping_address, v) = ord\<lparr>shipping_address := v\<rparr>"
| "setattr ord (F_notes, v) = ord\<lparr>order_notes := v\<rparr>"

section \<open>Time (app/utils/timezone.py)\<close>

text \<open>
  A Python datetime is naive (a wall clock) or aware (a wall clock and its UTC offset),
  in microseconds. \<open>clock\<close> is the IST wall clock at the moment of the call.
\<close>

datatype datetime = Naive int | Aware int int

definition IST_offset :: int where
  "IST_offset = 19800000000"

definition get_ist_now :: "int \<Rightarrow> datetime" where
  "get_ist_now clock = Aware clock IST_offset"

text \<open>\<open>to_ist\<close>: a naive datetime is taken to be UTC, then converted to IST.\<close>

fun to_ist :: "datetime \<Rightarrow> datetime" where
  "to_ist (Naive w) = Aware (w - 0 + IST_offset) IST_offset"
| "to_ist (Aware w off) = Aware (w - off + IST_offset) IST_offset"

text \<open>pytz's \<open>IST.localize\<close> attaches the zone to a naive datetime and refuses an aware one.\<close>

fun IST_localize :: "datetime \<Rightarrow> exn + datetime" where
  "IST_localize (Naive w) = Inr (Aware w IST_offset)"
| "IST_localize (Aware w off) = Inl (ValueError (Msg ''Not naive datetime (tzinfo is already set)''))"

fun replace_tzinfo_None :: "datetime \<Rightarrow> datetime" where
  "replace_tzinfo_None (Naive w) = Naive w"
| "replace_tzinfo_None (Aware w off) = Naive w"

fun minus_timedelta :: "datetime \<Rightarrow> int \<Rightarrow> datetime" where
  "minus_timedelta (Naive w) d = Naive (w - d)"
| "minus_timedelta (Aware w off) d = Aware (w - d) off"

text \<open>Subtraction of datetimes: the elapsed microseconds; mixing naive and aware raises.\<close>

fun datetime_sub :: "datetime \<Rightarrow> datetime \<Rightarrow> exn + int" where
  "datetime_sub (Aware w1 off1) (Aware w2 off2) = Inr ((w1 - off1) - (w2 - off2))"
| "datetime_sub (Naive w1) (Naive w2) = Inr (w1 - w2)"
| "datetime_sub (Aware w1 off1) (Naive w2) = Inl TypeError"
| "datetime_sub (Naive w1) (Aware w2 off2) = Inl TypeError"

definition total_seconds :: "int \<Rightarrow> rat" where
  "total_seconds td = of_int td / 1000000"

definition minutes :: "int \<Rightarrow> int" where
  "minutes n = n * 60000000"

section \<open>Strings\<close>

text \<open>
  Python's \<open>str.strip()\<close> removes leading and trailing whitespace. A \<open>char\<close> is a code
  point below 256, and these are the whitespace code points in that range.
\<close>

definition isspace :: "char \<Rightarrow> bool" where
  "isspace c = (of_char c \<in> {9, 10, 11, 12, 13, 28, 29, 30, 31, 32, 133, 160 :: nat})"

definition lstrip :: "string \<Rightarrow> string" where
  "lstrip xs = dropWhile isspace xs"

definition rstrip :: "string \<Rightarrow> string" where
  "rstrip xs = rev (dropWhile isspace (rev xs))"

definition strip :: "string \<Rightarrow> string" where
  "strip xs = rstrip (lstrip xs)"

text \<open>\<open>order.notes or ''\<close>, and the truth value of an optional string.\<close>

definition or_empty :: "string option \<Rightarrow> string" where
  "or_empty n = (case n of None \<Rightarrow> [] | Some t \<Rightarrow> t)"

definition truthy :: "string option \<Rightarrow> bool" where
  "truthy n = (case n of None \<Rightarrow> False | Some t \<Rightarrow> t \<noteq> [])"

section \<open>The store\<close>

text \<open>\<open>query.first()\<close>.\<close>

definition first :: "'a list \<Rightarrow> 'a option" where
  "first xs = (case xs of [] \<Rightarrow> None | x # _ \<Rightarrow> Some x)"

text \<open>
  A commit of one changed order. It fails when the store refuses it (\<open>db_ok\<close> is what the
  store answers) or when a \<open>nullable=False\<close> column holds None; then nothing is written.
  \<open>onupdate=get_ist_now\<close> stamps \<open>updated_at\<close> on every row an UPDATE changes.
\<close>

definition not_null_ok :: "Order \<Rightarrow> bool" where
  "not_null_ok ord = (customer_name ord \<noteq> None \<and> shipping_address ord \<noteq> None)"

definition stamp :: "int \<Rightarrow> Order \<Rightarrow> Order \<Rightarrow> Order" where
  "stamp clock old new = (if new = old then new else new\<lparr>updated_at := clock\<rparr>)"

definition write_row :: "Order \<Rightarrow> store \<Rightarrow> store" where
  "write_row r s = map (\<lambda>x. if oid x = oid r then r else x) s"

definition commit_order :: "bool \<Rightarrow> int \<Rightarrow> store \<Rightarrow> Order \<Rightarrow> Order \<Rightarrow> (Order \<times> store) option" where
  "commit_order db_ok clock s old new =
     (if db_ok \<and> not_null_ok new
      then (let r = stamp clock old new in Some (r, write_row r s))
      else None)"

text \<open>The autoincremented primary key of a new row.\<close>

definition next_id :: "store \<Rightarrow> nat" where
  "next_id s = Suc (fold max (map oid s) 0)"

section \<open>OrderService (app/services/order\_service.py)\<close>

subsection \<open>create\_order\<close>

fun add_items :: "nat \<Rightarrow> OrderItemCreate list \<Rightarrow> OrderItem list \<times> rat \<Rightarrow> OrderItem list \<times> rat" where
  "add_items order_id [] acc = acc"
| "add_items order_id (item_data # rest) (added, acc_total) =
     (let item_total = ic_unit_price item_data * of_int (ic_quantity item_data);
          order_item = \<lparr>item_order_id = order_id,
                        product_name = ic_product_name item_data,
                        product_sku = ic_product_sku item_data,
                        quantity = ic_quantity item_data,
                        unit_price = ic_unit_price item_data,
                        total_price = item_total,
                        product_description = ic_product_description item_data\<rparr>
      in add_items order_id rest (added @ [order_item], acc_total + item_total))"

text \<open>
  \<open>db.commit()\<close> writes the order and its items; \<open>db.refresh(order)\<close> reads the order
  back, and the items follow when they are next loaded: the amounts as the Numeric(10, 2)
  columns return them.
\<close>

definition refresh_amounts :: "(rat \<Rightarrow> rat) \<Rightarrow> Order \<Rightarrow> Order" where
  "refresh_amounts numeric ord =
     ord\<lparr>total_amount := numeric (total_amount ord),
         items := map (\<lambda>it. it\<lparr>unit_price := numeric (unit_price it),
                                  total_price := numeric (total_price it)\<rparr>) (items ord)\<rparr>"

definition create_order ::
  "(rat \<Rightarrow> rat) \<Rightarrow> bool \<Rightarrow> int \<Rightarrow> store \<Rightarrow> OrderCreate \<Rightarrow> User \<Rightarrow> (exn + Order) \<times> store" where
  "create_order numeric db_ok clock s order_data user =
     (if db_ok then
        (let order = \<lparr>oid = next_id s,
                      user_id = uid user,
                      customer_name = Some (oc_customer_name order_data),
                      customer_email = oc_customer_email order_data,
                      customer_phone = oc_customer_phone order_data,
                      shipping_address = Some (oc_shipping_address order_data),
                      status = PENDING,
                      total_amount = 0,
                      order_notes = oc_notes order_data,
                      tracking_number = None,
                      items = [],
                      created_at = clock,
                      updated_at = clock\<rparr>;
             added_total = add_items (oid order) (oc_items order_data) ([], 0);
             order = order\<lparr>items := fst added_total, total_amount := snd added_total\<rparr>;
             order = refresh_amounts numeric order
         in (Inr order, s @ [order]))
      else (Inl (HTTPException 500 (Msg ''Failed to create order'')), s))"

subsection \<open>get\_order\_by\_id\<close>

definition get_order_by_id :: "store \<Rightarrow> nat \<Rightarrow> User \<Rightarrow> exn + Order option" where
  "get_order_by_id s order_id user =
     (let query = filter (\<lambda>r. oid r = order_id) s;
          query = (if role user = CUSTOMER then filter (\<lambda>r. user_id r = uid user) query else query);
          order = first query
      in if order = None \<and> role user = CUSTOMER then
           (let exists = first (filter (\<lambda>r. oid r = order_id) s)
            in if exists = None then Inr order
               else Inl (HTTPException 403 (Msg ''Access denied'')))
         else Inr order)"

subsection \<open>update\_order\<close>

definition update_order :: "bool \<Rightarrow> int \<Rightarrow> store \<Rightarrow> nat \<Rightarrow> OrderUpdate \<Rightarrow> User \<Rightarrow> (exn + Order) \<times> store" where
  "update_order db_ok clock s order_id order_data user =
     (case get_order_by_id s order_id user of
        Inl e \<Rightarrow> (Inl e, s)
      | Inr None \<Rightarrow> (Inl (HTTPException 404 (Msg ''Order not found'')), s)
      | Inr (Some order) \<Rightarrow>
          if role user = CUSTOMER \<and> attr_user_id order \<noteq> attr_id user then
            (Inl (HTTPException 403 (Msg ''Access denied'')), s)
          else if role user = CUSTOMER \<and> status order \<noteq> PENDING then
            (Inl (HTTPException 400 (Msg ''Can only update pending orders'')), s)
          else
            (let update_data = dict_exclude_unset order_data;
                 order' = foldl setattr order update_data
             in case commit_order db_ok clock s order order' of
                  Some (r, s') \<Rightarrow> (Inr r, s')
                | None \<Rightarrow> (Inl (HTTPException 500 (Msg ''Failed to update order'')), s)))"

subsection \<open>\_is\_valid\_status\_transition\<close>

fun valid_transitions :: "OrderStatus \<Rightarrow> OrderStatus list" where
  "valid_transitions PENDING = [PROCESSING, CONFIRMED, CANCELLED]"
| "valid_transitions CONFIRMED = [PROCESSING, CANCELLED]"
| "valid_transitions PROCESSING = [SHIPPED, CANCELLED]"
| "valid_transitions SHIPPED = [DELIVERED]"
| "valid_transitions DELIVERED = [REFUNDED]"
| "valid_transitions CANCELLED = []"
| "valid_transitions REFUNDED = []"

definition is_valid_status_transition :: "OrderStatus \<Rightarrow> OrderStatus \<Rightarrow> bool" where
  "is_valid_status_transition current_status new_status =
     (new_status \<in> set (valid_transitions current_status))"

subsection \<open>update\_order\_status\<close>

text \<open>
  The permission checks of lines 172-190: \<open>None\<close> when they pass. \<open>fmt\<close> is how an
  f-string renders a status (the value or the member name, by Python version).
\<close>

definition status_permission_checks :: "Order \<Rightarrow> OrderStatus \<Rightarrow> User \<Rightarrow> bool \<Rightarrow> exn option" where
  "status_permission_checks order new_status current_user bypass_permission_check =
     (if bypass_permission_check then None
      else if role current_user = CUSTOMER then
        (if attr_user_id order \<noteq> attr_id current_user then
           Some (HTTPException 403 (Msg ''You can only update your own orders''))
         else if status order = PENDING \<and> new_status = PROCESSING then None
         else Some (HTTPException 403 (Msg ''Customers can only auto-update pending orders to processing'')))
      else if role current_user \<in> set [VENDOR, ADMIN] then None
      else Some (HTTPException 403 (Msg ''Only vendors and admins can update order status'')))"

definition update_order_status ::
  "bool \<Rightarrow> (OrderStatus \<Rightarrow> string) \<Rightarrow> int \<Rightarrow> store \<Rightarrow> nat \<Rightarrow> OrderStatus \<Rightarrow> string option \<Rightarrow> User \<Rightarrow> bool
     \<Rightarrow> (exn + Order) \<times> store" where
  "update_order_status db_ok fmt clock s order_id new_status notes_arg current_user bypass_permission_check =
     (case get_order_by_id s order_id current_user of
        Inl e \<Rightarrow> (Inl e, s)
      | Inr None \<Rightarrow> (Inl (HTTPException 404 (Msg ''Order not found'')), s)
      | Inr (Some order) \<Rightarrow>
          (case status_permission_checks order new_status current_user bypass_permission_check of
             Some e \<Rightarrow> (Inl e, s)
           | None \<Rightarrow>
               if is_valid_status_transition (status order) new_status then
                 (let order1 = order\<lparr>status := new_status\<rparr>;
                      order2 = (if truthy notes_arg
                                then order1\<lparr>order_notes := Some (strip (or_empty (order_notes order1) @ [CHR 0x0A] @ ''['' @
                                                                 fmt new_status @ ''] '' @ or_empty notes_arg))\<rparr>
                                else order1)
                  in case commit_order db_ok clock s order order2 of
                       Some (r, s') \<Rightarrow> (Inr r, s')
                     | None \<Rightarrow> (Inl (HTTPException 500 (Msg ''Failed to update order status'')), s))
               else (Inl (HTTPException 400 (Invalid_status_transition (status order) new_status)), s)))"

subsection \<open>cancel\_order\<close>

text \<open>The permission checks of lines 234-257; \<open>fmt_role\<close> renders a role in an f-string.\<close>

definition cancel_permission_checks :: "int \<Rightarrow> Order \<Rightarrow> User \<Rightarrow> exn option" where
  "cancel_permission_checks clock order user =
     (if role user = CUSTOMER then
        (if user_id order \<noteq> uid user then
           Some (PermissionError (Msg ''You can only cancel your own orders''))
         else if status order \<noteq> PENDING then
           Some (PermissionError (Msg ''You can only cancel orders that are in PENDING status''))
         else
           (let current_time = get_ist_now clock;
                order_created_ist = to_ist (Naive (created_at order))
            in case datetime_sub current_time order_created_ist of
                 Inl e \<Rightarrow> Some e
               | Inr td \<Rightarrow>
                   (let time_diff = total_seconds td
                    in if time_diff > 300 then
                         Some (PermissionError (Msg ''You can only cancel orders within 5 minutes of creation''))
                       else None)))
      else if role user \<in> set [VENDOR, ADMIN] then None
      else Some (PermissionError (Msg ''Only customers, vendors, and admins can cancel orders'')))"

definition cancel_order :: "bool \<Rightarrow> (UserRole \<Rightarrow> string) \<Rightarrow> int \<Rightarrow> store \<Rightarrow> nat \<Rightarrow> User \<Rightarrow> (exn + Order) \<times> store" where
  "cancel_order db_ok fmt_role clock s order_id user =
     (case first (filter (\<lambda>r. oid r = order_id) s) of
        None \<Rightarrow> (Inl (ValueError (Msg ''Order not found'')), s)
      | Some order \<Rightarrow>
          if status order \<in> set [DELIVERED, CANCELLED] then
            (Inl (ValueError (Msg ''Order cannot be cancelled'')), s)
          else
            (case cancel_permission_checks clock order user of
               Some e \<Rightarrow> (Inl e, s)
             | None \<Rightarrow>
                 (let order' = order\<lparr>status := CANCELLED,
                                     order_notes := Some (strip (or_empty (order_notes order) @ [CHR 0x0A] @
                                                      ''[CANCELLED] Order cancelled by '' @ fmt_role (role user)))\<rparr>
                  in case commit_order db_ok clock s order order' of
                       Some (r, s') \<Rightarrow> (Inr r, s')
                     | None \<Rightarrow> (Inl (ValueError Failed_to_cancel_order), s))))"

section \<open>The status route (app/api/routes/orders.py, lines 125-171)\<close>

text \<open>
  The names bound in the routes module: its imports (lines 6-17), its two module-level
  assignments and its handlers. A global name is looked up there (none of Python's
  builtins is called \<open>Order\<close>); a name that is not bound raises NameError.
\<close>

definition module_names :: "string list" where
  "module_names =
     [''List'', ''Optional'', ''APIRouter'', ''Depends'', ''Query'', ''status'', ''HTTPException'',
      ''Session'', ''get_db'', ''get_current_active_user'', ''require_vendor_or_admin'',
      ''get_logger'', ''User'', ''OrderStatus'', ''OrderCreate'', ''OrderResponse'', ''OrderUpdate'',
      ''OrderStatusUpdate'', ''PaginationParams'', ''PaginatedResponse'', ''OrderService'',
      ''logger'', ''router'', ''create_order'', ''get_my_orders'', ''get_all_orders'', ''get_order'',
      ''update_order'', ''update_order_status'', ''cancel_order_options'', ''cancel_order'']"

definition load_global :: "string \<Rightarrow> exn + unit" where
  "load_global n = (if n \<in> set module_names then Inr () else Inl (NameError n))"

text \<open>\<open>OrderStatus(value)\<close>: the member with that value, or ValueError.\<close>

definition OrderStatus_call :: "string \<Rightarrow> exn + OrderStatus" where
  "OrderStatus_call v =
     (if v = ''pending'' then Inr PENDING
      else if v = ''confirmed'' then Inr CONFIRMED
      else if v = ''processing'' then Inr PROCESSING
      else if v = ''shipped'' then Inr SHIPPED
      else if v = ''delivered'' then Inr DELIVERED
      else if v = ''cancelled'' then Inr CANCELLED
      else if v = ''refunded'' then Inr REFUNDED
      else Inl (ValueError (Not_a_valid_OrderStatus v)))"

text \<open>The body of the handler's \<open>try\<close>; \<open>status_update_dict\<close> is the request's JSON object.\<close>

definition route_update_order_status_try ::
  "bool \<Rightarrow> (OrderStatus \<Rightarrow> string) \<Rightarrow> int \<Rightarrow> store \<Rightarrow> nat \<Rightarrow> (string \<rightharpoonup> string) \<Rightarrow> User
     \<Rightarrow> (exn + Order) \<times> store" where
  "route_update_order_status_try db_ok fmt clock s order_id status_update_dict current_user =
     (case status_update_dict ''status'' of
        None \<Rightarrow> (Inl (KeyError ''status''), s)
      | Some v \<Rightarrow>
          (case OrderStatus_call v of
             Inl e \<Rightarrow> (Inl e, s)
           | Inr new_status \<Rightarrow>
               (case load_global ''Order'' of
                  Inl e \<Rightarrow> (Inl e, s)
                | Inr _ \<Rightarrow>
                    (case first (filter (\<lambda>r. oid r = order_id) s) of
                       None \<Rightarrow> (Inl (HTTPException 404 (Msg ''Order not found'')), s)
                     | Some order \<Rightarrow>
                         if status order = PENDING \<and> new_status = PROCESSING then
                           update_order_status db_ok fmt clock s order_id new_status
                             (status_update_dict ''notes'') current_user True
                         else
                           update_order_status db_ok fmt clock s order_id new_status
                             (status_update_dict ''notes'') current_user False))))"

text \<open>The handler: the \<open>try\<close> under its three \<open>except\<close> clauses, in their order.\<close>

definition route_update_order_status ::
  "bool \<Rightarrow> (OrderStatus \<Rightarrow> string) \<Rightarrow> int \<Rightarrow> store \<Rightarrow> nat \<Rightarrow> (string \<rightharpoonup> string) \<Rightarrow> User
     \<Rightarrow> (exn + Order) \<times> store" where
  "route_update_order_status db_ok fmt clock s order_id status_update_dict current_user =
     (case route_update_order_status_try db_ok fmt clock s order_id status_update_dict current_user of
        (Inr updated_order, s') \<Rightarrow> (Inr updated_order, s')
      | (Inl (ValueError d), s') \<Rightarrow> (Inl (HTTPException 400 d), s')
      | (Inl (PermissionError d), s') \<Rightarrow> (Inl (HTTPException 403 d), s')
      | (Inl e, s') \<Rightarrow> (Inl (HTTPException 500 (Msg ''Internal server error'')), s'))"

section \<open>Background jobs (app/background\_jobs.py)\<close>

text \<open>
  A pass works on three readings of the database: \<open>s_query\<close>, the rows as the batch
  query finds them; \<open>db_at i\<close>, the rows at the moment \<open>db.refresh\<close> re-reads the candidate
  with key \<open>i\<close> (refresh selects that row by its key, and raises when it is gone); and
  \<open>s_commit\<close>, the rows the final commit lands on. Other sessions may commit in between.
  The session is created with \<open>autoflush=False\<close>: the pass writes nothing before its
  commit, which updates the two columns it assigned (status and updated\_at) on each
  order it promoted.
\<close>

definition datetime_now_IST :: "int \<Rightarrow> datetime" where
  "datetime_now_IST clock = Aware clock IST_offset"

fun stored :: "datetime \<Rightarrow> int" where
  "stored (Naive w) = w"
| "stored (Aware w off) = w"

definition row_of :: "store \<Rightarrow> nat \<Rightarrow> Order option" where
  "row_of s i = first (filter (\<lambda>r. oid r = i) s)"

definition flush :: "Order list \<Rightarrow> store \<Rightarrow> store" where
  "flush dirty s =
     map (\<lambda>x. case first (filter (\<lambda>d. oid d = oid x) dirty) of
                 None \<Rightarrow> x
               | Some d \<Rightarrow> x\<lparr>status := status d, updated_at := updated_at d\<rparr>) s"

datatype pass_outcome = Logged_error exn | Done nat

subsection \<open>\_process\_pending\_orders (the periodic pass)\<close>

fun process_candidates ::
  "datetime \<Rightarrow> (nat \<Rightarrow> store) \<Rightarrow> Order list \<Rightarrow> Order list \<times> nat \<Rightarrow> exn + Order list \<times> nat" where
  "process_candidates current_time_ist db_at [] acc = Inr acc"
| "process_candidates current_time_ist db_at (order # rest) (dirty, updated_count) =
     (case row_of (db_at (oid order)) (oid order) of
        None \<Rightarrow> Inl InvalidRequestError
      | Some refreshed \<Rightarrow>
          if status refreshed \<noteq> PENDING then
            process_candidates current_time_ist db_at rest (dirty, updated_count)
          else
            (case IST_localize (Naive (created_at refreshed)) of
               Inl e \<Rightarrow> Inl e
             | Inr order_created_ist \<Rightarrow>
                 (case datetime_sub current_time_ist order_created_ist of
                    Inl e \<Rightarrow> Inl e
                  | Inr td \<Rightarrow>
                      (let age_seconds = total_seconds td;
                           age_minutes = age_seconds / 60
                       in if age_minutes \<le> 5 then
                            process_candidates current_time_ist db_at rest (dirty, updated_count)
                          else
                            process_candidates current_time_ist db_at rest
                              (dirty @ [refreshed\<lparr>status := PROCESSING,
                                                   updated_at := stored (replace_tzinfo_None current_time_ist)\<rparr>],
                               updated_count + 1)))))"

definition process_pending_orders ::
  "bool \<Rightarrow> int \<Rightarrow> store \<Rightarrow> (nat \<Rightarrow> store) \<Rightarrow> store \<Rightarrow> pass_outcome \<times> store" where
  "process_pending_orders db_ok clock s_query db_at s_commit =
     (let current_time_ist = datetime_now_IST clock;
          cutoff_time_ist = minus_timedelta current_time_ist (minutes 5);
          cutoff_time_naive = replace_tzinfo_None cutoff_time_ist;
          pending_orders = filter (\<lambda>r. status r = PENDING \<and> created_at r \<le> stored cutoff_time_naive) s_query
      in case process_candidates current_time_ist db_at pending_orders ([], 0) of
           Inl e \<Rightarrow> (Logged_error e, s_commit)
         | Inr (dirty, updated_count) \<Rightarrow>
             if updated_count > 0 then
               (if db_ok then (Done updated_count, flush dirty s_commit)
                else (Logged_error DatabaseError, s_commit))
             else (Done updated_count, s_commit))"

subsection \<open>update\_all\_pending\_orders\_now (the manual trigger)\<close>

fun update_candidates ::
  "datetime \<Rightarrow> (nat \<Rightarrow> store) \<Rightarrow> Order list \<Rightarrow> Order list \<times> nat \<Rightarrow> exn + Order list \<times> nat" where
  "update_candidates current_time_ist db_at [] acc = Inr acc"
| "update_candidates current_time_ist db_at (order # rest) (dirty, updated_count) =
     (case row_of (db_at (oid order)) (oid order) of
        None \<Rightarrow> Inl InvalidRequestError
      | Some refreshed \<Rightarrow>
          if status refreshed \<noteq> PENDING then
            update_candidates current_time_ist db_at rest (dirty, updated_count)
          else
            (case IST_localize (Naive (created_at refreshed)) of
               Inl e \<Rightarrow> Inl e
             | Inr order_created_ist \<Rightarrow>
                 update_candidates current_time_ist db_at rest
                   (dirty @ [refreshed\<lparr>status := PROCESSING,
                                        updated_at := stored (replace_tzinfo_None current_time_ist)\<rparr>],
                    updated_count + 1)))"

text \<open>The trigger reads the clock twice: for the cutoff, then for the new timestamps.\<close>

definition update_all_pending_orders_now ::
  "bool \<Rightarrow> int \<Rightarrow> int \<Rightarrow> store \<Rightarrow> (nat \<Rightarrow> store) \<Rightarrow> store \<Rightarrow> (exn + nat) \<times> store" where
  "update_all_pending_orders_now db_ok clock clock2 s_query db_at s_commit =
     (let cutoff_time_ist = minus_timedelta (datetime_now_IST clock) (minutes 5);
          cutoff_time_naive = replace_tzinfo_None cutoff_time_ist;
          pending_orders = filter (\<lambda>r. status r = PENDING \<and> created_at r \<le> stored cutoff_time_naive) s_query;
          current_time_ist = datetime_now_IST clock2
      in case update_candidates current_time_ist db_at pending_orders ([], 0) of
           Inl e \<Rightarrow> (Inl e, s_commit)
         | Inr (dirty, updated_count) \<Rightarrow>
             if updated_count > 0 then
               (if db_ok then (Inr updated_count, flush dirty s_commit)
                else (Inl DatabaseError, s_commit))
             else (Inr updated_count, s_commit))"

section \<open>Sample data\<close>

text \<open>An order row with the given key, owner, status and creation time, for the examples.\<close>

definition sample_order :: "nat \<Rightarrow> nat \<Rightarrow> OrderStatus \<Rightarrow> int \<Rightarrow> Order" where
  "sample_order i owner st created =
     \<lparr>oid = i, user_id = owner, customer_name = Some ''Asha'', customer_email = ''asha@example.com'',
      customer_phone = None, shipping_address = Some ''12 MG Road'', status = st, total_amount = 0,
      order_notes = None, tracking_number = None, items = [], created_at = created, updated_at = created\<rparr>"

text \<open>The renderings of a status and of a role by their values.\<close>

fun OrderStatus_value :: "OrderStatus \<Rightarrow> string" where
  "OrderStatus_value PENDING = ''pending''"
| "OrderStatus_value CONFIRMED = ''confirmed''"
| "OrderStatus_value PROCESSING = ''processing''"
| "OrderStatus_value SHIPPED = ''shipped''"
| "OrderStatus_value DELIVERED = ''delivered''"
| "OrderStatus_value CANCELLED = ''cancelled''"
| "OrderStatus_value REFUNDED = ''refunded''"

fun UserRole_value :: "UserRole \<Rightarrow> string" where
  "UserRole_value ADMIN = ''admin''"
| "UserRole_value VENDOR = ''vendor''"
| "UserRole_value CUSTOMER = ''customer''"


definition sample_item :: "int \<Rightarrow> rat \<Rightarrow> OrderItemCreate" where
  "sample_item q p = \<lparr>ic_product_name = ''tea'', ic_product_sku = None, ic_quantity = q,
                       ic_unit_price = p, ic_product_description = None\<rparr>"

definition sample_request :: "OrderItemCreate list \<Rightarrow> OrderCreate" where
  "sample_request its = \<lparr>oc_customer_name = ''Asha'', oc_customer_email = ''asha@example.com'',
                          oc_customer_phone = None, oc_shipping_address = ''12 MG Road'',
                          oc_notes = None, oc_items = its\<rparr>"

text \<open>The store after an administrator has cancelled the one pending order in it.\<close>

definition store_after_cancel :: store where
  "store_after_cancel =
     snd (cancel_order True UserRole_value (minutes 9) [sample_order 1 7 PENDING 0] 1 \<lparr>uid = 2, role = ADMIN\<rparr>)"

text \<open>
  A rounding for the examples: the nearest hundredth. None of the examples has an amount
  halfway between two hundredths.
\<close>

definition nearest_cent :: "rat \<Rightarrow> rat" where
  "nearest_cent x = of_int (round (x * 100)) / 100"

section \<open>The total invariant\<close>

text \<open>
  An order's total is the sum of quantity times unit price over its items, and each
  item's line total is its quantity times its unit price.
\<close>

definition total_matches_items :: "Order \<Rightarrow> bool" where
  "total_matches_items r =
     (total_amount r = sum_list (map (\<lambda>it. of_int (quantity it) * unit_price it) (items r)) \<and>
      list_all (\<lambda>it. total_price it = of_int (quantity it) * unit_price it) (items r))"

text \<open>
  The amounts of a request (its unit prices, the line totals and their sum) come back
  from the columns as they were written: none of them is changed by the rounding.
\<close>

definition kept_by_columns :: "(rat \<Rightarrow> rat) \<Rightarrow> OrderCreate \<Rightarrow> bool" where
  "kept_by_columns numeric order_data =
     (list_all (\<lambda>x. numeric (ic_unit_price x) = ic_unit_price x \<and>
                      numeric (ic_unit_price x * of_int (ic_quantity x)) =
                        ic_unit_price x * of_int (ic_quantity x)) (oc_items order_data) \<and>
      numeric (sum_list (map (\<lambda>x. ic_unit_price x * of_int (ic_quantity x)) (oc_items order_data))) =
        sum_list (map (\<lambda>x. ic_unit_price x * of_int (ic_quantity x)) (oc_items order_data)))"

section \<open>Properties\<close>

subsection \<open>Lookups by key\<close>

lemma filter_key_distinct:
  "distinct (map oid s) \<Longrightarrow>
   filter (\<lambda>r. oid r = i) s = (case find (\<lambda>r. oid r = i) s of None \<Rightarrow> [] | Some r \<Rightarrow> [r])"
proof (induction s)
  case Nil
  then show ?case by simp
next
  case (Cons a s)
  show ?case
  proof (cases "oid a = i")
    case True
    with Cons.prems have "\<forall>r \<in> set s. oid r \<noteq> i" by (auto simp: image_iff)
    then have "filter (\<lambda>r. oid r = i) s = []" by (simp add: filter_empty_conv)
    with True show ?thesis by simp
  next
    case False
    with Cons show ?thesis by simp
  qed
qed

lemmas cancel_defs = cancel_order_def first_def cancel_permission_checks_def commit_order_def
  not_null_ok_def stamp_def write_row_def Let_def get_ist_now_def IST_offset_def total_seconds_def

subsection \<open>Terminal statuses\<close>

lemma terminal_no_edges:
  "\<not> is_valid_status_transition CANCELLED t" "\<not> is_valid_status_transition REFUNDED t"
  by (simp_all add: is_valid_status_transition_def)

text \<open>\<open>update_order_status\<close> refuses every request on a cancelled or refunded order.\<close>

lemma update_order_status_keeps_terminal:
  assumes "get_order_by_id s i u = Inr (Some r)" "status r \<in> {CANCELLED, REFUNDED}"
  shows "snd (update_order_status db_ok fmt clock s i new_status n u bypass) = s \<and>
         isl (fst (update_order_status db_ok fmt clock s i new_status n u bypass))"
proof -
  have "\<not> is_valid_status_transition (status r) new_status"
    using assms(2) terminal_no_edges [of new_status] by auto
  then show ?thesis
    using assms(1)
    by (simp add: update_order_status_def split: option.splits)
qed

text \<open>
  C1. The claim: no operation changes the status of a cancelled or refunded order. The
  transition table has no edge out of either status, but \<open>cancel_order\<close> does not consult
  the table: its guard refuses DELIVERED and CANCELLED only. An administrator cancelling
  a refunded order succeeds, and the order's status becomes CANCELLED.
\<close>

theorem cancel_order_overwrites_refunded:
  "map status (snd (cancel_order True fmt_role clock [sample_order 1 7 REFUNDED 0] 1 \<lparr>uid = 2, role = ADMIN\<rparr>))
     = [CANCELLED]"
  by (simp add: cancel_defs sample_order_def)

subsection \<open>The customer's cancellation window\<close>

text \<open>
  What the window check computes for the owner of a pending order: the stored creation
  time is a naive IST wall clock, \<open>to_ist\<close> reads it as UTC, and the difference to the IST
  clock comes out 5 hours 30 minutes short of the order's age.
\<close>

lemma window_difference:
  "datetime_sub (get_ist_now clock) (to_ist (Naive w)) = Inr (clock - w - IST_offset)"
  "datetime_sub (get_ist_now clock) (to_ist (Aware w IST_offset)) = Inr (clock - w)"
  by (simp_all add: get_ist_now_def)

lemma customer_window_as_computed:
  assumes "role user = CUSTOMER" "user_id order = uid user" "status order = PENDING"
  shows "cancel_permission_checks clock order user =
           (if clock - created_at order > 300000000 + IST_offset
            then Some (PermissionError (Msg ''You can only cancel orders within 5 minutes of creation''))
            else None)"
  using assms by (simp add: cancel_defs)

text \<open>
  C3. The claim: a customer's cancellation of an own pending order succeeds exactly when
  the order is at most 300 seconds old, and at 301 seconds it fails with the
  window-expired reason. Here the order was created at IST wall clock 0 and the IST
  clock stands at 301 seconds: the cancellation goes through.
\<close>

theorem cancel_order_accepts_after_window:
  "map status (snd (cancel_order True fmt_role 301000000 [sample_order 1 7 PENDING 0] 1 \<lparr>uid = 7, role = CUSTOMER\<rparr>))
     = [CANCELLED]"
  by (simp add: cancel_defs sample_order_def)

subsection \<open>The manual sweep at the boundary\<close>

text \<open>
  Run with no other session writing (one reading of the database throughout), the manual
  sweep promotes the pending orders with \<open>created_at <= clock - 5 min\<close>, stamps them
  with its second clock reading, leaves every other row as it was and returns the number
  of promoted orders.
\<close>

lemma filter_key_single:
  assumes "distinct (map oid s)" "c \<in> set s"
  shows "filter (\<lambda>r. oid r = oid c) s = [c]"
proof -
  have "c \<in> set (filter (\<lambda>r. oid r = oid c) s)" using assms(2) by simp
  moreover have "filter (\<lambda>r. oid r = oid c) s =
      (case find (\<lambda>r. oid r = oid c) s of None \<Rightarrow> [] | Some r \<Rightarrow> [r])"
    using filter_key_distinct [OF assms(1)] .
  ultimately show ?thesis
    by (cases "find (\<lambda>r. oid r = oid c) s") simp_all
qed

lemma row_of_distinct:
  assumes "distinct (map oid s)" "c \<in> set s"
  shows "row_of s (oid c) = Some c"
  by (simp add: row_of_def first_def filter_key_single [OF assms])

lemma update_candidates_sequential:
  assumes "distinct (map oid s)"
  shows "set cs \<subseteq> set s \<Longrightarrow> \<forall>c \<in> set cs. status c = PENDING \<Longrightarrow>
         update_candidates t (\<lambda>k. s) cs (dirty, n) =
           Inr (dirty @ map (\<lambda>c. c\<lparr>status := PROCESSING, updated_at := stored (replace_tzinfo_None t)\<rparr>) cs,
                n + length cs)"
proof (induction cs arbitrary: dirty n)
  case Nil
  then show ?case by simp
next
  case (Cons c cs)
  have r: "row_of s (oid c) = Some c" using row_of_distinct [OF assms] Cons.prems(1) by simp
  have p: "status c = PENDING" using Cons.prems(2) by simp
  have "set cs \<subseteq> set s" "\<forall>c \<in> set cs. status c = PENDING" using Cons.prems by auto
  note ih = Cons.IH [OF this]
  show ?case by (simp add: r p ih)
qed

lemma filter_map_key:
  assumes "\<And>r. oid (f r) = oid r"
  shows "filter (\<lambda>d. oid d = k) (map f cs) = map f (filter (\<lambda>c. oid c = k) cs)"
  by (induction cs) (simp_all add: assms)

lemma flush_lookup:
  assumes "distinct (map oid s)" and f: "\<And>r. oid (f r) = oid r" and x: "x \<in> set s"
  shows "first (filter (\<lambda>d. oid d = oid x) (map f (filter P s))) = (if P x then Some (f x) else None)"
proof -
  have "filter (\<lambda>c. oid c = oid x) (filter P s) = filter P (filter (\<lambda>c. oid c = oid x) s)"
    by (simp add: conj_commute)
  also have "\<dots> = filter P [x]"
    by (simp only: filter_key_single [OF assms(1) x])
  finally have "filter (\<lambda>d. oid d = oid x) (map f (filter P s)) = map f (filter P [x])"
    by (simp only: filter_map_key [of f, OF f])
  then show ?thesis by (simp add: first_def)
qed

lemma flush_sequential:
  assumes "distinct (map oid s)" and f: "\<And>r. oid (f r) = oid r"
  shows "flush (map f (filter P s)) s =
           map (\<lambda>r. if P r then r\<lparr>status := status (f r), updated_at := updated_at (f r)\<rparr> else r) s"
  unfolding flush_def
proof (rule map_cong [OF refl])
  fix x assume "x \<in> set s"
  from flush_lookup [OF assms this, of P]
  show "(case first (filter (\<lambda>d. oid d = oid x) (map f (filter P s))) of
           None \<Rightarrow> x | Some d \<Rightarrow> x\<lparr>status := status d, updated_at := updated_at d\<rparr>) =
        (if P x then x\<lparr>status := status (f x), updated_at := updated_at (f x)\<rparr> else x)"
    by simp
qed

lemma no_candidate_no_change:
  "filter P s = [] \<Longrightarrow> map (\<lambda>r. if P r then f r else r) s = s"
  by (induction s) (simp_all split: if_splits)

lemma manual_sweep_sequential:
  assumes "distinct (map oid s)"
  shows "update_all_pending_orders_now True clock clock2 s (\<lambda>k. s) s =
           (Inr (length (filter (\<lambda>r. status r = PENDING \<and> created_at r \<le> clock - minutes 5) s)),
            map (\<lambda>r. if status r = PENDING \<and> created_at r \<le> clock - minutes 5
                      then r\<lparr>status := PROCESSING, updated_at := clock2\<rparr> else r) s)"
proof -
  define P where "P = (\<lambda>r::Order. status r = PENDING \<and> created_at r \<le> clock - minutes 5)"
  define f where "f = (\<lambda>c::Order. c\<lparr>status := PROCESSING, updated_at := clock2\<rparr>)"
  have sub: "set (filter P s) \<subseteq> set s" by simp
  have pen: "\<forall>c \<in> set (filter P s). status c = PENDING" by (simp add: P_def)
  have c: "update_candidates (Aware clock2 IST_offset) (\<lambda>k. s) (filter P s) ([], 0) =
             Inr (map f (filter P s), length (filter P s))"
    using update_candidates_sequential [OF assms sub pen, of "Aware clock2 IST_offset" "[]" 0]
    by (simp add: f_def)
  have fk: "\<And>r. oid (f r) = oid r" by (simp add: f_def)
  have fl: "flush (map f (filter P s)) s = map (\<lambda>r. if P r then f r else r) s"
    using flush_sequential [OF assms fk, of P] by (simp add: f_def)
  have q: "filter (\<lambda>r. status r = PENDING \<and>
             created_at r \<le> stored (replace_tzinfo_None (minus_timedelta (datetime_now_IST clock) (minutes 5)))) s
           = filter P s"
    by (simp add: P_def datetime_now_IST_def)
  have run: "update_all_pending_orders_now True clock clock2 s (\<lambda>k. s) s =
               (if length (filter P s) > 0 then (Inr (length (filter P s)), flush (map f (filter P s)) s)
                else (Inr (length (filter P s)), s))"
    unfolding update_all_pending_orders_now_def Let_def q
    by (simp add: datetime_now_IST_def c)
  have "update_all_pending_orders_now True clock clock2 s (\<lambda>k. s) s =
          (Inr (length (filter P s)), map (\<lambda>r. if P r then f r else r) s)"
  proof (cases "filter P s = []")
    case True
    with run no_candidate_no_change [OF True, of f] show ?thesis by simp
  next
    case False
    with run fl show ?thesis by simp
  qed
  then show ?thesis unfolding P_def f_def .
qed


lemma manual_sweep_spec_example:
  "update_all_pending_orders_now True (minutes 20) (minutes 20)
      [sample_order 1 7 PENDING 0, sample_order 2 7 PENDING (minutes 1), sample_order 3 8 PENDING (minutes 2),
       sample_order 4 8 PENDING (minutes 18), sample_order 5 9 PROCESSING 0]
      (\<lambda>k. [sample_order 1 7 PENDING 0, sample_order 2 7 PENDING (minutes 1), sample_order 3 8 PENDING (minutes 2),
       sample_order 4 8 PENDING (minutes 18), sample_order 5 9 PROCESSING 0])
      [sample_order 1 7 PENDING 0, sample_order 2 7 PENDING (minutes 1), sample_order 3 8 PENDING (minutes 2),
       sample_order 4 8 PENDING (minutes 18), sample_order 5 9 PROCESSING 0]
   = (Inr 3,
      [(sample_order 1 7 PENDING 0)\<lparr>status := PROCESSING, updated_at := minutes 20\<rparr>,
       (sample_order 2 7 PENDING (minutes 1))\<lparr>status := PROCESSING, updated_at := minutes 20\<rparr>,
       (sample_order 3 8 PENDING (minutes 2))\<lparr>status := PROCESSING, updated_at := minutes 20\<rparr>,
       sample_order 4 8 PENDING (minutes 18), sample_order 5 9 PROCESSING 0])"
proof -
  have d: "distinct (map oid [sample_order 1 7 PENDING 0, sample_order 2 7 PENDING (minutes 1),
       sample_order 3 8 PENDING (minutes 2), sample_order 4 8 PENDING (minutes 18), sample_order 5 9 PROCESSING 0])"
    by (simp add: sample_order_def)
  show ?thesis
    unfolding manual_sweep_sequential [OF d]
    by (simp add: sample_order_def minutes_def)
qed

text \<open>The periodic pass leaves an order that is exactly five minutes old alone.\<close>

lemma periodic_pass_at_five_minutes:
  "process_pending_orders True (minutes 5) [sample_order 1 7 PENDING 0]
      (\<lambda>i. [sample_order 1 7 PENDING 0]) [sample_order 1 7 PENDING 0]
     = (Done 0, [sample_order 1 7 PENDING 0])"
  by (simp add: process_pending_orders_def datetime_now_IST_def minutes_def IST_offset_def
      sample_order_def row_of_def first_def flush_def Let_def total_seconds_def)

text \<open>
  C5. The claim: the manual sweep promotes exactly the pending orders created more than
  five minutes ago. Its query takes \<open>created_at <= cutoff\<close> and, unlike the periodic pass,
  it has no second age check: an order that is exactly five minutes old is promoted and
  counted.
\<close>

theorem manual_sweep_promotes_at_five_minutes:
  "update_all_pending_orders_now True (minutes 5) (minutes 5) [sample_order 1 7 PENDING 0]
      (\<lambda>i. [sample_order 1 7 PENDING 0]) [sample_order 1 7 PENDING 0]
     = (Inr 1, [(sample_order 1 7 PENDING 0)\<lparr>status := PROCESSING, updated_at := minutes 5\<rparr>])"
  by (simp add: update_all_pending_orders_now_def datetime_now_IST_def minutes_def IST_offset_def
      sample_order_def row_of_def first_def flush_def Let_def)

subsection \<open>Access to one order\<close>

text \<open>
  C9. With the primary key unique, \<open>get_order_by_id\<close> is one lookup by key followed by an
  ownership test for customers: a vendor or an admin gets the order whenever it exists;
  a customer gets it exactly when they own it, gets "Access denied" (403) exactly when
  it exists and belongs to someone else, and gets no order (the caller's not-found)
  when no order has that key.
\<close>

theorem get_order_by_id_access:
  assumes "distinct (map oid s)"
  shows "get_order_by_id s i u =
           (case find (\<lambda>r. oid r = i) s of
              None \<Rightarrow> Inr None
            | Some r \<Rightarrow>
                if role u = CUSTOMER \<and> user_id r \<noteq> uid u
                then Inl (HTTPException 403 (Msg ''Access denied''))
                else Inr (Some r))"
  using filter_key_distinct [OF assms, of i]
  by (auto simp: get_order_by_id_def first_def Let_def split: option.splits list.splits)

theorem get_order_by_id_access_witness:
  "distinct (map oid [sample_order 1 7 PENDING 0, sample_order 2 8 SHIPPED 5]) \<and>
   get_order_by_id [sample_order 1 7 PENDING 0, sample_order 2 8 SHIPPED 5] 2 \<lparr>uid = 7, role = CUSTOMER\<rparr>
     = Inl (HTTPException 403 (Msg ''Access denied'')) \<and>
   get_order_by_id [sample_order 1 7 PENDING 0, sample_order 2 8 SHIPPED 5] 1 \<lparr>uid = 7, role = CUSTOMER\<rparr>
     = Inr (Some (sample_order 1 7 PENDING 0)) \<and>
   get_order_by_id [sample_order 1 7 PENDING 0, sample_order 2 8 SHIPPED 5] 3 \<lparr>uid = 7, role = CUSTOMER\<rparr>
     = Inr None \<and>
   get_order_by_id [sample_order 1 7 PENDING 0, sample_order 2 8 SHIPPED 5] 2 \<lparr>uid = 9, role = VENDOR\<rparr>
     = Inr (Some (sample_order 2 8 SHIPPED 5))"
proof -
  have d: "distinct (map oid [sample_order 1 7 PENDING 0, sample_order 2 8 SHIPPED 5])"
    by (simp add: sample_order_def)
  show ?thesis
    using d get_order_by_id_access [OF d, of 2 "\<lparr>uid = 7, role = CUSTOMER\<rparr>"]
      get_order_by_id_access [OF d, of 1 "\<lparr>uid = 7, role = CUSTOMER\<rparr>"]
      get_order_by_id_access [OF d, of 3 "\<lparr>uid = 7, role = CUSTOMER\<rparr>"]
      get_order_by_id_access [OF d, of 2 "\<lparr>uid = 9, role = VENDOR\<rparr>"]
    by (simp add: sample_order_def)
qed

subsection \<open>Transitions that are not edges, and the status route\<close>


text \<open>
  A customer whose permission check is not bypassed is refused by the first of the
  role checks whatever is asked: line 176 compares the str \<open>order.user_id\<close> with the int
  \<open>current_user.id\<close>, which are never equal.
\<close>

lemma status_permission_checks_customer:
  "role u = CUSTOMER \<Longrightarrow>
   status_permission_checks order new_status u False =
     Some (HTTPException 403 (Msg ''You can only update your own orders''))"
  by (simp add: status_permission_checks_def attr_user_id_def attr_id_def)




lemmas route_defs = route_update_order_status_def route_update_order_status_try_def load_global_def
  module_names_def OrderStatus_call_def

text \<open>
  C2 as stated fails. The claim: every invocation of the status route raises NameError
  and answers 500. \<open>OrderStatus(status_update["status"])\<close> runs before \<open>Order\<close> is
  looked up: an unknown status literal raises ValueError, which the handler maps to 400.
\<close>

theorem route_update_order_status_bad_literal:
  "route_update_order_status True OrderStatus_value 0 [sample_order 1 7 PENDING 0] 1
       [''status'' \<mapsto> ''bogus''] \<lparr>uid = 2, role = ADMIN\<rparr>
     = (Inl (HTTPException 400 (Not_a_valid_OrderStatus ''bogus'')), [sample_order 1 7 PENDING 0])"
  by (simp add: route_defs)

text \<open>
  C2, amended. The \<open>try\<close> of the handler always raises, before any order is read: KeyError
  when the payload has no status, ValueError when the status is not a member of
  OrderStatus, and NameError for \<open>Order\<close> otherwise. The handler answers 500, 400 and 500
  respectively, and the store is unchanged for every caller and every payload.
\<close>

theorem route_update_order_status_never_writes:
  "route_update_order_status_try db_ok fmt clock s i p u =
     (Inl (case p ''status'' of
             None \<Rightarrow> KeyError ''status''
           | Some v \<Rightarrow> (case OrderStatus_call v of Inl e \<Rightarrow> e | Inr new_status \<Rightarrow> NameError ''Order'')), s) \<and>
   route_update_order_status db_ok fmt clock s i p u =
     (Inl (case p ''status'' of
             None \<Rightarrow> HTTPException 500 (Msg ''Internal server error'')
           | Some v \<Rightarrow> (case OrderStatus_call v of
                          Inl e \<Rightarrow> HTTPException 400 (Not_a_valid_OrderStatus v)
                        | Inr new_status \<Rightarrow> HTTPException 500 (Msg ''Internal server error''))), s)"
proof -
  have g: "load_global ''Order'' = Inl (NameError ''Order'')"
    by (simp add: load_global_def module_names_def)
  have c: "\<And>v e. OrderStatus_call v = Inl e \<Longrightarrow> e = ValueError (Not_a_valid_OrderStatus v)"
    by (auto simp: OrderStatus_call_def split: if_splits)
  have t: "route_update_order_status_try db_ok fmt clock s i p u =
     (Inl (case p ''status'' of
             None \<Rightarrow> KeyError ''status''
           | Some v \<Rightarrow> (case OrderStatus_call v of Inl e \<Rightarrow> e | Inr new_status \<Rightarrow> NameError ''Order'')), s)"
    by (simp add: route_update_order_status_try_def g split: option.splits sum.splits)
  show ?thesis
    unfolding route_update_order_status_def t
    by (auto split: option.splits sum.splits dest: c)
qed

subsection \<open>The frame of update\_order\<close>

lemma first_filter_mem: "first (filter P s) = Some r \<Longrightarrow> r \<in> set s \<and> P r"
proof -
  assume a: "first (filter P s) = Some r"
  then obtain rest where "filter P s = r # rest"
    by (auto simp: first_def split: list.splits)
  then have "r \<in> set (filter P s)" by simp
  then show ?thesis by simp
qed

lemma get_order_by_id_mem:
  "get_order_by_id s i u = Inr (Some r) \<Longrightarrow> r \<in> set s \<and> oid r = i"
  by (auto simp: get_order_by_id_def Let_def split: if_splits dest!: first_filter_mem)



lemma setattr_frame:
  "oid (setattr r fv) = oid r" "status (setattr r fv) = status r"
  "total_amount (setattr r fv) = total_amount r" "user_id (setattr r fv) = user_id r"
  "items (setattr r fv) = items r" "customer_email (setattr r fv) = customer_email r"
  "tracking_number (setattr r fv) = tracking_number r" "created_at (setattr r fv) = created_at r"
  "updated_at (setattr r fv) = updated_at r"
  by (cases fv, cases "fst fv", simp_all)+

lemma foldl_setattr_frame:
  "oid (foldl setattr r xs) = oid r \<and> status (foldl setattr r xs) = status r \<and>
   total_amount (foldl setattr r xs) = total_amount r \<and> user_id (foldl setattr r xs) = user_id r \<and>
   items (foldl setattr r xs) = items r \<and> customer_email (foldl setattr r xs) = customer_email r \<and>
   tracking_number (foldl setattr r xs) = tracking_number r \<and> created_at (foldl setattr r xs) = created_at r"
  by (induction xs arbitrary: r) (simp_all add: setattr_frame)


lemma stamp_fields:
  "oid (stamp c old new) = oid new" "status (stamp c old new) = status new"
  "total_amount (stamp c old new) = total_amount new" "user_id (stamp c old new) = user_id new"
  "items (stamp c old new) = items new" "customer_email (stamp c old new) = customer_email new"
  "tracking_number (stamp c old new) = tracking_number new" "created_at (stamp c old new) = created_at new"
  "customer_name (stamp c old new) = customer_name new" "customer_phone (stamp c old new) = customer_phone new"
  "shipping_address (stamp c old new) = shipping_address new" "order_notes (stamp c old new) = order_notes new"
  by (simp_all add: stamp_def)

text \<open>What update_order returns and writes when it succeeds.\<close>

lemma update_order_success:
  assumes "update_order db_ok clock s i d u = (Inr r', s')"
  shows "\<exists>r. get_order_by_id s i u = Inr (Some r) \<and>
             r' = stamp clock r (foldl setattr r (dict_exclude_unset d)) \<and> s' = write_row r' s"
  using assms
  by (auto simp: update_order_def commit_order_def Let_def split: sum.splits option.splits if_splits)

lemma update_order_failure:
  assumes "update_order db_ok clock s i d u = (Inl e, s')"
  shows "s' = s"
  using assms
  by (auto simp: update_order_def commit_order_def Let_def split: sum.splits option.splits if_splits)



text \<open>
  A customer is always refused: the order is not theirs (403 from the lookup), or absent
  (404), or theirs, and then line 130 compares the str \<open>order.user_id\<close> with the int
  \<open>user.id\<close>, which are never equal (403).
\<close>

lemma update_order_refuses_customers:
  assumes "role u = CUSTOMER"
  shows "snd (update_order db_ok clock s i d u) = s \<and> isl (fst (update_order db_ok clock s i d u))"
  using assms
  by (simp add: update_order_def attr_user_id_def attr_id_def split: sum.splits option.splits)



subsection \<open>Notes\<close>



lemma update_order_status_success:
  assumes "update_order_status db_ok fmt clock s i new_status n u bypass = (Inr r', s')"
  shows "\<exists>r. get_order_by_id s i u = Inr (Some r) \<and> is_valid_status_transition (status r) new_status \<and>
             status r' = new_status \<and> oid r' = oid r \<and> total_amount r' = total_amount r \<and> items r' = items r \<and>
             order_notes r' = (if truthy n
                               then Some (strip (or_empty (order_notes r) @ [CHR 0x0A] @ ''['' @ fmt new_status @ ''] '' @ or_empty n))
                               else order_notes r) \<and>
             s' = write_row r' s"
  using assms
  by (auto simp: update_order_status_def commit_order_def stamp_fields Let_def
      split: sum.splits option.splits if_splits)

lemma update_order_status_failure:
  assumes "update_order_status db_ok fmt clock s i new_status n u bypass = (Inl e, s')"
  shows "s' = s"
  using assms
  by (auto simp: update_order_status_def commit_order_def Let_def split: sum.splits option.splits if_splits)

lemma cancel_order_success:
  assumes "cancel_order db_ok fmt_role clock s i u = (Inr r', s')"
  shows "\<exists>r. first (filter (\<lambda>x. oid x = i) s) = Some r \<and>
             status r' = CANCELLED \<and> oid r' = oid r \<and> total_amount r' = total_amount r \<and> items r' = items r \<and>
             order_notes r' = Some (strip (or_empty (order_notes r) @ [CHR 0x0A] @
                                      ''[CANCELLED] Order cancelled by '' @ fmt_role (role u))) \<and>
             s' = write_row r' s"
  using assms
  by (auto simp: cancel_order_def commit_order_def stamp_fields Let_def
      split: sum.splits option.splits if_splits)

lemma cancel_order_failure:
  assumes "cancel_order db_ok fmt_role clock s i u = (Inl e, s')"
  shows "s' = s"
  using assms
  by (auto simp: cancel_order_def commit_order_def Let_def split: sum.splits option.splits if_splits)




subsection \<open>Totals\<close>

lemma add_items_result:
  "snd (add_items k xs (added, t)) = t + sum_list (map (\<lambda>x. ic_unit_price x * of_int (ic_quantity x)) xs) \<and>
   map quantity (fst (add_items k xs (added, t))) = map quantity added @ map ic_quantity xs \<and>
   map unit_price (fst (add_items k xs (added, t))) = map unit_price added @ map ic_unit_price xs \<and>
   map total_price (fst (add_items k xs (added, t))) =
     map total_price added @ map (\<lambda>x. ic_unit_price x * of_int (ic_quantity x)) xs"
proof (induction xs arbitrary: added t)
  case Nil
  show ?case by simp
next
  case (Cons x xs)
  show ?case by (simp add: Let_def Cons.IH add.assoc)
qed

lemma sum_by_columns:
  "map quantity its = map ic_quantity xs \<Longrightarrow> map unit_price its = map ic_unit_price xs \<Longrightarrow>
   sum_list (map (\<lambda>it. of_int (quantity it) * unit_price it) its) =
   sum_list (map (\<lambda>x. ic_unit_price x * of_int (ic_quantity x)) xs)"
proof (induction its arbitrary: xs)
  case Nil
  then show ?case by simp
next
  case (Cons a its)
  then obtain y ys where "xs = y # ys" by (cases xs) auto
  with Cons show ?case by (auto simp: mult.commute)
qed

lemma line_totals_by_columns:
  "map quantity its = map ic_quantity xs \<Longrightarrow> map unit_price its = map ic_unit_price xs \<Longrightarrow>
   map total_price its = map (\<lambda>x. ic_unit_price x * of_int (ic_quantity x)) xs \<Longrightarrow>
   list_all (\<lambda>it. total_price it = of_int (quantity it) * unit_price it) its"
proof (induction its arbitrary: xs)
  case Nil
  then show ?case by simp
next
  case (Cons a its)
  then obtain y ys where "xs = y # ys" by (cases xs) auto
  with Cons show ?case by (auto simp: mult.commute)
qed

lemma map_agree:
  "list_all (\<lambda>x. g x = h x) xs \<Longrightarrow> map g xs = map h xs"
  by (induction xs) simp_all

text \<open>The order \<open>create_order\<close> returns and stores, column by column.\<close>

lemma create_order_success:
  assumes "create_order numeric db_ok clock s order_data user = (Inr order, s')"
  shows "s' = s @ [order]"
    and "status order = PENDING"
    and "map quantity (items order) = map ic_quantity (oc_items order_data)"
    and "map unit_price (items order) = map (\<lambda>x. numeric (ic_unit_price x)) (oc_items order_data)"
    and "map total_price (items order) =
           map (\<lambda>x. numeric (ic_unit_price x * of_int (ic_quantity x))) (oc_items order_data)"
    and "total_amount order =
           numeric (sum_list (map (\<lambda>x. ic_unit_price x * of_int (ic_quantity x)) (oc_items order_data)))"
proof -
  note a = add_items_result [of "next_id s" "oc_items order_data" "[]" 0]
  from assms have o: "db_ok" and
    e: "order = refresh_amounts numeric
          (\<lparr>oid = next_id s, user_id = uid user,
            customer_name = Some (oc_customer_name order_data),
            customer_email = oc_customer_email order_data,
            customer_phone = oc_customer_phone order_data,
            shipping_address = Some (oc_shipping_address order_data),
            status = PENDING, total_amount = 0, order_notes = oc_notes order_data,
            tracking_number = None, items = [], created_at = clock, updated_at = clock\<rparr>
           \<lparr>items := fst (add_items (next_id s) (oc_items order_data) ([], 0)),
            total_amount := snd (add_items (next_id s) (oc_items order_data) ([], 0))\<rparr>)"
    and s: "s' = s @ [order]"
    by (auto simp: create_order_def Let_def split: if_splits)
  show "s' = s @ [order]" by (rule s)
  show "status order = PENDING" by (simp add: e refresh_amounts_def)
  have q: "map quantity (items order) = map quantity (fst (add_items (next_id s) (oc_items order_data) ([], 0)))"
    by (simp add: e refresh_amounts_def comp_def)
  have p: "map unit_price (items order) =
             map numeric (map unit_price (fst (add_items (next_id s) (oc_items order_data) ([], 0))))"
    by (simp add: e refresh_amounts_def comp_def)
  have l: "map total_price (items order) =
             map numeric (map total_price (fst (add_items (next_id s) (oc_items order_data) ([], 0))))"
    by (simp add: e refresh_amounts_def comp_def)
  show "map quantity (items order) = map ic_quantity (oc_items order_data)"
    using q a by simp
  show "map unit_price (items order) = map (\<lambda>x. numeric (ic_unit_price x)) (oc_items order_data)"
    unfolding p using a by (simp add: comp_def)
  show "map total_price (items order) =
           map (\<lambda>x. numeric (ic_unit_price x * of_int (ic_quantity x))) (oc_items order_data)"
    unfolding l using a by (simp add: comp_def)
  show "total_amount order =
           numeric (sum_list (map (\<lambda>x. ic_unit_price x * of_int (ic_quantity x)) (oc_items order_data)))"
    using a by (simp add: e refresh_amounts_def)
qed

lemma create_order_failure:
  assumes "create_order numeric db_ok clock s order_data user = (Inl e, s')"
  shows "s' = s"
  using assms by (auto simp: create_order_def Let_def split: if_splits)

lemma create_order_totals:
  assumes "create_order numeric db_ok clock s order_data user = (Inr order, s')"
      and "kept_by_columns numeric order_data"
  shows "map quantity (items order) = map ic_quantity (oc_items order_data)"
    and "map unit_price (items order) = map ic_unit_price (oc_items order_data)"
    and "total_matches_items order"
    and "total_amount order = calculate_total order"
proof -
  note c = create_order_success [OF assms(1)]
  have k1: "list_all (\<lambda>x. numeric (ic_unit_price x) = ic_unit_price x) (oc_items order_data)"
    and k2: "list_all (\<lambda>x. numeric (ic_unit_price x * of_int (ic_quantity x)) =
                         ic_unit_price x * of_int (ic_quantity x)) (oc_items order_data)"
    and k3: "numeric (sum_list (map (\<lambda>x. ic_unit_price x * of_int (ic_quantity x)) (oc_items order_data))) =
               sum_list (map (\<lambda>x. ic_unit_price x * of_int (ic_quantity x)) (oc_items order_data))"
    using assms(2) by (simp_all add: kept_by_columns_def list_all_iff)
  show q: "map quantity (items order) = map ic_quantity (oc_items order_data)"
    by (rule c(3))
  show p: "map unit_price (items order) = map ic_unit_price (oc_items order_data)"
    using c(4) map_agree [OF k1] by simp
  have t: "map total_price (items order) =
             map (\<lambda>x. ic_unit_price x * of_int (ic_quantity x)) (oc_items order_data)"
    using c(5) map_agree [OF k2] by simp
  have s: "total_amount order = sum_list (map (\<lambda>x. ic_unit_price x * of_int (ic_quantity x)) (oc_items order_data))"
    using c(6) k3 by simp
  show "total_matches_items order"
    unfolding total_matches_items_def
    using s sum_by_columns [OF q p] line_totals_by_columns [OF q p t] by simp
  show "total_amount order = calculate_total order"
    unfolding calculate_total_def using s t by simp
qed

lemma write_row_keeps_totals:
  assumes "list_all total_matches_items s" "r \<in> set s" "total_amount r' = total_amount r" "items r' = items r"
  shows "list_all total_matches_items (write_row r' s)"
proof -
  have "total_matches_items r" using assms(1,2) by (simp add: list_all_iff)
  then have "total_matches_items r'" using assms(3,4) by (simp add: total_matches_items_def)
  then show ?thesis using assms(1) by (auto simp: write_row_def list_all_iff)
qed

lemma update_order_keeps_totals:
  assumes "list_all total_matches_items s"
  shows "list_all total_matches_items (snd (update_order db_ok clock s i d u))"
proof (cases "update_order db_ok clock s i d u")
  case (Pair res s')
  show ?thesis
  proof (cases res)
    case (Inl e)
    with Pair assms update_order_failure show ?thesis by fastforce
  next
    case (Inr r')
    with Pair obtain r where g: "get_order_by_id s i u = Inr (Some r)"
      and r': "r' = stamp clock r (foldl setattr r (dict_exclude_unset d))"
      and s': "s' = write_row r' s"
      using update_order_success by blast
    have f: "total_amount r' = total_amount r" "items r' = items r"
      unfolding r' by (simp_all add: stamp_fields foldl_setattr_frame)
    have "r \<in> set s" using get_order_by_id_mem [OF g] by simp
    then have "list_all total_matches_items (write_row r' s)"
      using f by (rule write_row_keeps_totals [OF assms])
    with s' Pair show ?thesis by simp
  qed
qed

lemma update_order_status_keeps_totals:
  assumes "list_all total_matches_items s"
  shows "list_all total_matches_items (snd (update_order_status db_ok fmt clock s i new_status n u bypass))"
proof (cases "update_order_status db_ok fmt clock s i new_status n u bypass")
  case (Pair res s')
  show ?thesis
  proof (cases res)
    case (Inl e)
    with Pair assms update_order_status_failure show ?thesis by fastforce
  next
    case (Inr r')
    with Pair obtain r where g: "get_order_by_id s i u = Inr (Some r)"
      and f: "total_amount r' = total_amount r" "items r' = items r" and s': "s' = write_row r' s"
      using update_order_status_success by blast
    have "r \<in> set s" using get_order_by_id_mem [OF g] by simp
    then have "list_all total_matches_items (write_row r' s)"
      using f by (rule write_row_keeps_totals [OF assms])
    with s' Pair show ?thesis by simp
  qed
qed

lemma cancel_order_keeps_totals:
  assumes "list_all total_matches_items s"
  shows "list_all total_matches_items (snd (cancel_order db_ok fmt_role clock s i u))"
proof (cases "cancel_order db_ok fmt_role clock s i u")
  case (Pair res s')
  show ?thesis
  proof (cases res)
    case (Inl e)
    with Pair assms cancel_order_failure show ?thesis by fastforce
  next
    case (Inr r')
    with Pair obtain r where g: "first (filter (\<lambda>x. oid x = i) s) = Some r"
      and f: "total_amount r' = total_amount r" "items r' = items r" and s': "s' = write_row r' s"
      using cancel_order_success by blast
    have "r \<in> set s" using first_filter_mem [OF g] by simp
    then have "list_all total_matches_items (write_row r' s)"
      using f by (rule write_row_keeps_totals [OF assms])
    with s' Pair show ?thesis by simp
  qed
qed

lemma nearest_cent_values:
  "nearest_cent (1 / 250) = 0" "nearest_cent (3 / 250) = 1 / 100"
  "nearest_cent (5 / 2) = 5 / 2" "nearest_cent 3 = 3" "nearest_cent 5 = 5" "nearest_cent 8 = 8"
  by code_simp+

text \<open>
  C7 as stated fails. The claim: after \<open>create_order\<close> the persisted total equals the
  sum over the items of quantity times unit price, for any non-empty item list. The
  schema accepts any non-negative Decimal as a unit price, and the amounts come back at
  two places. Three units at 0.004: the stored unit price is 0.00, the stored line total
  and the stored total are 0.01, and the sum of quantity times unit price is 0.
\<close>

theorem create_order_total_rounded:
  "map total_amount (snd (create_order nearest_cent True 0 [] (sample_request [sample_item 3 (1 / 250)])
                            \<lparr>uid = 7, role = CUSTOMER\<rparr>)) = [1 / 100] \<and>
   map (\<lambda>r. map unit_price (items r))
       (snd (create_order nearest_cent True 0 [] (sample_request [sample_item 3 (1 / 250)])
               \<lparr>uid = 7, role = CUSTOMER\<rparr>)) = [[0]] \<and>
   map (\<lambda>r. map total_price (items r))
       (snd (create_order nearest_cent True 0 [] (sample_request [sample_item 3 (1 / 250)])
               \<lparr>uid = 7, role = CUSTOMER\<rparr>)) = [[1 / 100]] \<and>
   map (\<lambda>r. sum_list (map (\<lambda>it. of_int (quantity it) * unit_price it) (items r)))
       (snd (create_order nearest_cent True 0 [] (sample_request [sample_item 3 (1 / 250)])
               \<lparr>uid = 7, role = CUSTOMER\<rparr>)) = [0]"
  by (simp add: create_order_def refresh_amounts_def Let_def sample_request_def sample_item_def
      nearest_cent_values)

text \<open>
  C7, amended. When \<open>create_order\<close> succeeds on a non-empty item list whose amounts the
  columns keep as written (unit prices, line totals and their sum: amounts of at most
  two places, within the columns' range), the order it appends to the store carries the
  submitted quantities and unit prices, each item's line total is its quantity times its
  unit price, and the order's total is the sum of these products (which is also what
  \<open>calculate_total\<close> returns). The request carries no total of its own. If the totals of
  all stored orders matched their items before, they still do after the creation and
  after any later \<open>update_order\<close>, \<open>update_order_status\<close> or \<open>cancel_order\<close>.
\<close>

theorem create_order_total_amount:
  assumes "oc_items order_data \<noteq> []"
      and "kept_by_columns numeric order_data"
      and "create_order numeric db_ok clock s order_data user = (Inr order, s')"
  shows "s' = s @ [order] \<and>
         map quantity (items order) = map ic_quantity (oc_items order_data) \<and>
         map unit_price (items order) = map ic_unit_price (oc_items order_data) \<and>
         total_amount order = sum_list (map (\<lambda>it. of_int (quantity it) * unit_price it) (items order)) \<and>
         list_all (\<lambda>it. total_price it = of_int (quantity it) * unit_price it) (items order) \<and>
         total_amount order = calculate_total order \<and>
         (list_all total_matches_items s \<longrightarrow>
            list_all total_matches_items s' \<and>
            list_all total_matches_items (snd (update_order db_ok2 clock2 s' i d u)) \<and>
            list_all total_matches_items (snd (update_order_status db_ok2 fmt clock2 s' i new_status n u bypass)) \<and>
            list_all total_matches_items (snd (cancel_order db_ok2 fmt_role clock2 s' i u)))"
proof -
  note c = create_order_success [OF assms(3)]
  note t = create_order_totals [OF assms(3) assms(2)]
  have inv: "list_all total_matches_items s \<Longrightarrow> list_all total_matches_items s'"
    using c(1) t(3) by simp
  show ?thesis
    using c(1) t inv update_order_keeps_totals update_order_status_keeps_totals cancel_order_keeps_totals
    by (simp add: total_matches_items_def)
qed

theorem create_order_total_amount_witness:
  "oc_items (sample_request [sample_item 2 (5 / 2), sample_item 1 3]) \<noteq> [] \<and>
   kept_by_columns nearest_cent (sample_request [sample_item 2 (5 / 2), sample_item 1 3]) \<and>
   map total_amount (snd (create_order nearest_cent True 0 [] (sample_request [sample_item 2 (5 / 2), sample_item 1 3])
                            \<lparr>uid = 7, role = CUSTOMER\<rparr>)) = [8] \<and>
   map (\<lambda>r. map total_price (items r))
       (snd (create_order nearest_cent True 0 [] (sample_request [sample_item 2 (5 / 2), sample_item 1 3])
               \<lparr>uid = 7, role = CUSTOMER\<rparr>)) = [[5, 3]] \<and>
   list_all total_matches_items
       (snd (create_order nearest_cent True 0 [] (sample_request [sample_item 2 (5 / 2), sample_item 1 3])
               \<lparr>uid = 7, role = CUSTOMER\<rparr>))"
proof -
  obtain res s' where e: "create_order nearest_cent True 0 [] (sample_request [sample_item 2 (5 / 2), sample_item 1 3])
       \<lparr>uid = 7, role = CUSTOMER\<rparr> = (res, s')"
    by (cases "create_order nearest_cent True 0 [] (sample_request [sample_item 2 (5 / 2), sample_item 1 3])
       \<lparr>uid = 7, role = CUSTOMER\<rparr>")
  then obtain order where r: "res = Inr order"
    by (auto simp: create_order_def Let_def)
  have n: "oc_items (sample_request [sample_item 2 (5 / 2), sample_item 1 3]) \<noteq> []"
    by (simp add: sample_request_def)
  have k: "kept_by_columns nearest_cent (sample_request [sample_item 2 (5 / 2), sample_item 1 3])"
    by (simp add: kept_by_columns_def sample_request_def sample_item_def nearest_cent_values)
  have v: "map total_amount s' = [8]" "map (\<lambda>r. map total_price (items r)) s' = [[5, 3]]"
    using e by (auto simp: create_order_def refresh_amounts_def Let_def sample_request_def sample_item_def
        nearest_cent_values)
  have "list_all total_matches_items [] \<longrightarrow> list_all total_matches_items s'"
    using create_order_total_amount [OF n k e [unfolded r]] by blast
  then show ?thesis using n k e v by simp
qed

subsection \<open>The passes re-read before they write\<close>

lemma row_of_key: "row_of s k = Some r \<Longrightarrow> oid r = k \<and> r \<in> set s"
  unfolding row_of_def using first_filter_mem [of "\<lambda>x. oid x = k" s r] by simp

lemma process_candidates_dirty:
  "process_candidates t db_at cs (dirty, n) = Inr (dirty', n') \<Longrightarrow> d \<in> set dirty' \<Longrightarrow>
   d \<in> set dirty \<or> (\<exists>r. row_of (db_at (oid d)) (oid d) = Some r \<and> status r = PENDING)"
proof (induction cs arbitrary: dirty n)
  case Nil
  then show ?case by simp
next
  case (Cons c cs)
  from Cons.prems(1) obtain fresh where f: "row_of (db_at (oid c)) (oid c) = Some fresh"
    by (auto split: option.splits)
  then have k: "oid fresh = oid c" using row_of_key by blast
  show ?case
  proof (cases "status fresh = PENDING")
    case False
    with Cons.prems f have "process_candidates t db_at cs (dirty, n) = Inr (dirty', n')" by simp
    from Cons.IH [OF this Cons.prems(2)] show ?thesis .
  next
    case True
    from Cons.prems(1) f True obtain td where td: "datetime_sub t (Aware (created_at fresh) IST_offset) = Inr td"
      by (auto split: sum.splits)
    show ?thesis
    proof (cases "total_seconds td / 60 \<le> 5")
      case le: True
      with Cons.prems f True td have "process_candidates t db_at cs (dirty, n) = Inr (dirty', n')"
        by (simp add: Let_def)
      from Cons.IH [OF this Cons.prems(2)] show ?thesis .
    next
      case gt: False
      with Cons.prems f True td
      have "process_candidates t db_at cs
              (dirty @ [fresh\<lparr>status := PROCESSING, updated_at := stored (replace_tzinfo_None t)\<rparr>], n + 1)
            = Inr (dirty', n')"
        by (simp add: Let_def)
      from Cons.IH [OF this Cons.prems(2)]
      show ?thesis using f True k by auto
    qed
  qed
qed

lemma update_candidates_dirty:
  "update_candidates t db_at cs (dirty, n) = Inr (dirty', n') \<Longrightarrow> d \<in> set dirty' \<Longrightarrow>
   d \<in> set dirty \<or> (\<exists>r. row_of (db_at (oid d)) (oid d) = Some r \<and> status r = PENDING)"
proof (induction cs arbitrary: dirty n)
  case Nil
  then show ?case by simp
next
  case (Cons c cs)
  from Cons.prems(1) obtain fresh where f: "row_of (db_at (oid c)) (oid c) = Some fresh"
    by (auto split: option.splits)
  then have k: "oid fresh = oid c" using row_of_key by blast
  show ?case
  proof (cases "status fresh = PENDING")
    case False
    with Cons.prems f have "update_candidates t db_at cs (dirty, n) = Inr (dirty', n')" by simp
    from Cons.IH [OF this Cons.prems(2)] show ?thesis .
  next
    case True
    with Cons.prems f
    have "update_candidates t db_at cs
            (dirty @ [fresh\<lparr>status := PROCESSING, updated_at := stored (replace_tzinfo_None t)\<rparr>], n + 1)
          = Inr (dirty', n')"
      by simp
    from Cons.IH [OF this Cons.prems(2)]
    show ?thesis using f True k by auto
  qed
qed

lemma flush_keys: "map oid (flush dirty s) = map oid s"
  by (induction s) (auto simp: flush_def split: option.splits)

lemma flush_untouched:
  assumes "\<forall>d \<in> set dirty. oid d \<noteq> i"
  shows "filter (\<lambda>x. oid x = i) (flush dirty s) = filter (\<lambda>x. oid x = i) s"
proof -
  have e: "filter (\<lambda>d. oid d = i) dirty = []"
    using assms by (simp add: filter_empty_conv)
  show ?thesis
    by (induction s) (auto simp: flush_def first_def e split: option.splits list.splits)
qed

lemma process_candidates_finishes:
  "\<forall>c \<in> set cs. row_of (db_at (oid c)) (oid c) \<noteq> None \<Longrightarrow>
   \<exists>acc'. process_candidates (Aware w off) db_at cs acc = Inr acc'"
proof (induction cs arbitrary: acc)
  case Nil
  then show ?case by simp
next
  case (Cons c cs)
  obtain dirty n where acc: "acc = (dirty, n)" by (cases acc)
  from Cons.prems obtain fresh where f: "row_of (db_at (oid c)) (oid c) = Some fresh" by auto
  from Cons.prems have "\<forall>c \<in> set cs. row_of (db_at (oid c)) (oid c) \<noteq> None" by simp
  note ih = Cons.IH [OF this]
  show ?case
    unfolding acc using f ih by (simp add: Let_def)
qed

lemma update_candidates_finishes:
  "\<forall>c \<in> set cs. row_of (db_at (oid c)) (oid c) \<noteq> None \<Longrightarrow>
   \<exists>acc'. update_candidates t db_at cs acc = Inr acc'"
proof (induction cs arbitrary: acc)
  case Nil
  then show ?case by simp
next
  case (Cons c cs)
  obtain dirty n where acc: "acc = (dirty, n)" by (cases acc)
  from Cons.prems obtain fresh where f: "row_of (db_at (oid c)) (oid c) = Some fresh" by auto
  from Cons.prems have "\<forall>c \<in> set cs. row_of (db_at (oid c)) (oid c) \<noteq> None" by simp
  note ih = Cons.IH [OF this]
  show ?case
    unfolding acc using f ih by simp
qed

lemma periodic_pass_skips:
  assumes "row_of (db_at i) i = Some r" "status r \<noteq> PENDING"
  shows "filter (\<lambda>x. oid x = i) (snd (process_pending_orders db_ok clock s_query db_at s_commit)) =
         filter (\<lambda>x. oid x = i) s_commit"
proof -
  define cs where "cs = filter (\<lambda>r. status r = PENDING \<and>
      created_at r \<le> stored (replace_tzinfo_None (minus_timedelta (datetime_now_IST clock) (minutes 5)))) s_query"
  show ?thesis
  proof (cases "process_candidates (datetime_now_IST clock) db_at cs ([], 0)")
    case (Inl e)
    then show ?thesis by (simp add: process_pending_orders_def Let_def cs_def)
  next
    case (Inr acc)
    obtain dirty n where acc: "acc = (dirty, n)" by (cases acc)
    have "\<forall>d \<in> set dirty. oid d \<noteq> i"
      using process_candidates_dirty [OF Inr [unfolded acc]] assms by fastforce
    from flush_untouched [OF this] Inr acc
    show ?thesis by (simp add: process_pending_orders_def Let_def cs_def)
  qed
qed

lemma manual_pass_skips:
  assumes "row_of (db_at i) i = Some r" "status r \<noteq> PENDING"
  shows "filter (\<lambda>x. oid x = i) (snd (update_all_pending_orders_now db_ok clock clock2 s_query db_at s_commit)) =
         filter (\<lambda>x. oid x = i) s_commit"
proof -
  define cs where "cs = filter (\<lambda>r. status r = PENDING \<and>
      created_at r \<le> stored (replace_tzinfo_None (minus_timedelta (datetime_now_IST clock) (minutes 5)))) s_query"
  show ?thesis
  proof (cases "update_candidates (datetime_now_IST clock2) db_at cs ([], 0)")
    case (Inl e)
    then show ?thesis by (simp add: update_all_pending_orders_now_def Let_def cs_def)
  next
    case (Inr acc)
    obtain dirty n where acc: "acc = (dirty, n)" by (cases acc)
    have "\<forall>d \<in> set dirty. oid d \<noteq> i"
      using update_candidates_dirty [OF Inr [unfolded acc]] assms by fastforce
    from flush_untouched [OF this] Inr acc
    show ?thesis by (simp add: update_all_pending_orders_now_def Let_def cs_def)
  qed
qed

lemma passes_finish:
  assumes "\<forall>c \<in> set s_query. row_of (db_at (oid c)) (oid c) \<noteq> None" "db_ok"
  shows "\<exists>n. fst (process_pending_orders db_ok clock s_query db_at s_commit) = Done n"
    and "\<exists>n. fst (update_all_pending_orders_now db_ok clock clock2 s_query db_at s_commit) = Inr n"
proof -
  define cs where "cs = filter (\<lambda>r. status r = PENDING \<and>
      created_at r \<le> stored (replace_tzinfo_None (minus_timedelta (datetime_now_IST clock) (minutes 5)))) s_query"
  have all: "\<forall>c \<in> set cs. row_of (db_at (oid c)) (oid c) \<noteq> None"
    using assms(1) by (simp add: cs_def)
  from process_candidates_finishes [OF all, of clock IST_offset "([], 0)"]
  obtain acc where a: "process_candidates (datetime_now_IST clock) db_at cs ([], 0) = Inr acc"
    by (auto simp: datetime_now_IST_def)
  from update_candidates_finishes [OF all, of "datetime_now_IST clock2" "([], 0)"]
  obtain acc2 where b: "update_candidates (datetime_now_IST clock2) db_at cs ([], 0) = Inr acc2"
    by auto
  show "\<exists>n. fst (process_pending_orders db_ok clock s_query db_at s_commit) = Done n"
    using a assms(2) by (cases acc) (simp add: process_pending_orders_def Let_def cs_def)
  show "\<exists>n. fst (update_all_pending_orders_now db_ok clock clock2 s_query db_at s_commit) = Inr n"
    using b assms(2) by (cases acc2) (simp add: update_all_pending_orders_now_def Let_def cs_def)
qed

lemma store_after_cancel_rows:
  "store_after_cancel =
     [(sample_order 1 7 PENDING 0)\<lparr>status := CANCELLED,
         order_notes := Some ''[CANCELLED] Order cancelled by admin'', updated_at := minutes 9\<rparr>]"
  by (simp add: store_after_cancel_def cancel_defs sample_order_def or_empty_def strip_def lstrip_def
      rstrip_def isspace_def)

text \<open>
  C6 as stated fails. The claim: the promotion worker never overwrites a concurrent user
  transition. The re-read guards the moment of the in-memory assignment only; the write
  is the commit at the end of the pass, an UPDATE by key. A cancellation committed after
  the candidate's re-read and before that commit is overwritten: the order ends the pass
  in status PROCESSING, in the periodic pass and in the manual trigger.
\<close>

theorem worker_overwrites_later_cancellation:
  "map status (snd (cancel_order True UserRole_value (minutes 11) [sample_order 1 7 PENDING 0] 1
                      \<lparr>uid = 2, role = ADMIN\<rparr>)) = [CANCELLED] \<and>
   map status (snd (process_pending_orders True (minutes 10) [sample_order 1 7 PENDING 0]
                      (\<lambda>k. [sample_order 1 7 PENDING 0])
                      (snd (cancel_order True UserRole_value (minutes 11) [sample_order 1 7 PENDING 0] 1
                              \<lparr>uid = 2, role = ADMIN\<rparr>)))) = [PROCESSING] \<and>
   map status (snd (update_all_pending_orders_now True (minutes 10) (minutes 10) [sample_order 1 7 PENDING 0]
                      (\<lambda>k. [sample_order 1 7 PENDING 0])
                      (snd (cancel_order True UserRole_value (minutes 11) [sample_order 1 7 PENDING 0] 1
                              \<lparr>uid = 2, role = ADMIN\<rparr>)))) = [PROCESSING]"
  by (simp add: cancel_defs process_pending_orders_def update_all_pending_orders_now_def
      datetime_now_IST_def minutes_def sample_order_def row_of_def flush_def)

text \<open>
  C6, amended. The worker never overwrites a user transition that was committed before
  the candidate's re-read. In the periodic pass and in the manual trigger alike, a
  candidate whose re-read status is no longer pending is skipped: the loop goes on to
  the next candidate with its accumulator unchanged, and the rows with that key are
  after the pass what the commit found. The skip raises nothing: when every candidate's
  row still exists at its re-read and the store accepts the commit, both passes end
  without an error. An order cancelled after the batch query and before its re-read
  ends the pass cancelled.
\<close>

theorem worker_skips_after_reread:
  assumes "row_of (db_at i) i = Some r" "status r \<noteq> PENDING"
  shows "filter (\<lambda>x. oid x = i) (snd (process_pending_orders db_ok clock s_query db_at s_commit)) =
           filter (\<lambda>x. oid x = i) s_commit \<and>
         filter (\<lambda>x. oid x = i) (snd (update_all_pending_orders_now db_ok clock clock2 s_query db_at s_commit)) =
           filter (\<lambda>x. oid x = i) s_commit \<and>
         (\<forall>t c cs acc. oid c = i \<longrightarrow>
            process_candidates t db_at (c # cs) acc = process_candidates t db_at cs acc \<and>
            update_candidates t db_at (c # cs) acc = update_candidates t db_at cs acc) \<and>
         ((\<forall>c \<in> set s_query. row_of (db_at (oid c)) (oid c) \<noteq> None) \<and> db_ok \<longrightarrow>
            (\<exists>n. fst (process_pending_orders db_ok clock s_query db_at s_commit) = Done n) \<and>
            (\<exists>n. fst (update_all_pending_orders_now db_ok clock clock2 s_query db_at s_commit) = Inr n))"
proof -
  have skip: "\<And>t c cs acc. oid c = i \<Longrightarrow>
      process_candidates t db_at (c # cs) acc = process_candidates t db_at cs acc \<and>
      update_candidates t db_at (c # cs) acc = update_candidates t db_at cs acc"
  proof -
    fix t and c :: Order and cs and acc :: "Order list \<times> nat"
    assume "oid c = i"
    then show "process_candidates t db_at (c # cs) acc = process_candidates t db_at cs acc \<and>
      update_candidates t db_at (c # cs) acc = update_candidates t db_at cs acc"
      using assms by (cases acc) simp
  qed
  show ?thesis
    using periodic_pass_skips [of db_at i r, OF assms] manual_pass_skips [of db_at i r, OF assms]
      skip passes_finish [of s_query db_at db_ok]
    by blast
qed

theorem worker_skips_after_reread_witness:
  "row_of store_after_cancel 1 = Some (hd store_after_cancel) \<and>
   status (hd store_after_cancel) \<noteq> PENDING \<and>
   process_pending_orders True (minutes 10) [sample_order 1 7 PENDING 0] (\<lambda>k. store_after_cancel) store_after_cancel
     = (Done 0, store_after_cancel) \<and>
   update_all_pending_orders_now True (minutes 10) (minutes 10) [sample_order 1 7 PENDING 0]
       (\<lambda>k. store_after_cancel) store_after_cancel
     = (Inr 0, store_after_cancel) \<and>
   map status store_after_cancel = [CANCELLED]"
proof -
  have a: "row_of ((\<lambda>k. store_after_cancel) (1::nat)) 1 = Some (hd store_after_cancel)"
    by (simp add: store_after_cancel_rows row_of_def first_def sample_order_def)
  have b: "status (hd store_after_cancel) \<noteq> PENDING"
    by (simp add: store_after_cancel_rows)
  have p: "process_pending_orders True (minutes 10) [sample_order 1 7 PENDING 0] (\<lambda>k. store_after_cancel) store_after_cancel
     = (Done 0, store_after_cancel)"
    by (simp add: store_after_cancel_rows process_pending_orders_def datetime_now_IST_def minutes_def
        IST_offset_def sample_order_def row_of_def first_def Let_def)
  have m: "update_all_pending_orders_now True (minutes 10) (minutes 10) [sample_order 1 7 PENDING 0]
       (\<lambda>k. store_after_cancel) store_after_cancel
     = (Inr 0, store_after_cancel)"
    by (simp add: store_after_cancel_rows update_all_pending_orders_now_def datetime_now_IST_def minutes_def
        IST_offset_def sample_order_def row_of_def first_def Let_def)
  show ?thesis
    using a b p m
      worker_skips_after_reread [where db_at = "\<lambda>k. store_after_cancel" and i = 1
        and r = "hd store_after_cancel" and db_ok = True and clock = "minutes 10"
        and s_query = "[sample_order 1 7 PENDING 0]" and s_commit = store_after_cancel
        and ?clock2.0 = "minutes 10", OF a b]
    by (simp add: store_after_cancel_rows)
qed


end
